theory Spec2Isabelle
  imports Main "HOL-Library.Word"
begin

section \<open>UDP ingress of the DNS proxy (proxy/udp.go)\<close>

text \<open>
  The development embeds \<^verbatim>\<open>serveUDP\<close>, \<^verbatim>\<open>setUDPDstOptions\<close>, \<^verbatim>\<open>readUDP\<close>,
  \<^verbatim>\<open>oobWithSrc\<close> and \<^verbatim>\<open>parseDstFromOOB\<close> of \<^verbatim>\<open>proxy/udp.go\<close>.

  Go's \<^verbatim>\<open>int\<close> sizes are only compared and stored, never computed with, so they are
  \<^typ>\<open>int\<close>. A byte slice is a list of bytes; \<^verbatim>\<open>net.IP\<close> is a byte slice that may be
  \<^verbatim>\<open>nil\<close>, so it is an optional list. What the code obtains from outside the file (the
  resolver, the query constructor, the socket, the control-message codecs of
  \<^verbatim>\<open>golang.org/x/net\<close>, the clock) is a parameter: pure collaborators are fields of
  the record \<open>env\<close>, results of network calls are arguments of the function that makes
  the call.
\<close>

subsection \<open>Data\<close>

type_synonym byte = "8 word"
type_synonym bytes = "byte list"
type_synonym IP = "bytes option"

text \<open>
  An \<^verbatim>\<open>error\<close> value. The loop asks one thing of a receive error: whether it
  implements \<^verbatim>\<open>net.Error\<close> and reports \<^verbatim>\<open>Temporary()\<close>. \<open>Wrapped\<close> is what
  \<^verbatim>\<open>fmt.Errorf("...: %w", err)\<close> builds.
\<close>

datatype error =
    PlainError string
  | NetError string bool
  | Wrapped string error

fun temporary :: "error \<Rightarrow> bool" where
  "temporary (NetError msg tmp) = tmp"
| "temporary (PlainError msg) = False"
| "temporary (Wrapped pre err) = False"

record UDPAddr =
  addr_IP :: IP
  addr_Port :: int
  addr_Zone :: string

text \<open>
  The fields of \<^verbatim>\<open>resolver.Query\<close> and \<^verbatim>\<open>resolver.ResolveInfo\<close> that the file reads.
  Both are struct values: \<^verbatim>\<open>NewQuery\<close> returns a query also when it returns an error,
  and the zero \<^verbatim>\<open>ResolveInfo\<close> has an empty transport. The record type of a query is
  only copied into the log entry; a number stands for it.
\<close>

record Query =
  q_PeerIP :: IP
  q_Type :: nat
  q_Name :: string

record ResolveInfo =
  Transport :: string

record QueryInfo =
  PeerIP :: IP
  Protocol :: string
  Type :: nat
  Name :: string
  QuerySize :: int
  ResponseSize :: int
  Duration :: int
  UpstreamTransport :: string
  Error :: "error option"

datatype Context = Background | WithTimeout int

record env =
  Timeout :: int
  oob4_len :: nat
  oob6_len :: nat
  addrIP :: "UDPAddr option \<Rightarrow> IP"
  NewQuery :: "bytes \<Rightarrow> IP \<Rightarrow> Query \<times> error option"
  Marshal4 :: "IP \<Rightarrow> bytes"
  Marshal6 :: "IP \<Rightarrow> bytes"
  Parse4 :: "bytes \<Rightarrow> error option \<times> IP"
  Parse6 :: "bytes \<Rightarrow> error option \<times> IP"

definition maxUDPSize :: int where
  "maxUDPSize = 512"

subsection \<open>Slices\<close>

text \<open>
  \<^verbatim>\<open>buf[:n]\<close> panics unless \<open>0 \<le> n \<le> cap(buf)\<close>; the pooled buffers have their
  length as capacity. \<open>None\<close> is the panic.
\<close>

definition slice_to :: "bytes \<Rightarrow> int \<Rightarrow> bytes option" where
  "slice_to buf n = (if 0 \<le> n \<and> n \<le> int (length buf) then Some (take (nat n) buf) else None)"

text \<open>
  A callee that is handed \<^verbatim>\<open>buf\<close> can store bytes into its backing array and cannot
  change the caller's slice header: \<open>overwrite buf data\<close> is the buffer after \<open>data\<close>
  was stored from its start.
\<close>

definition overwrite :: "bytes \<Rightarrow> bytes \<Rightarrow> bytes" where
  "overwrite buf data = take (length buf) (data @ drop (length data) buf)"

subsection \<open>Ancillary data codec\<close>

text \<open>
  \<^verbatim>\<open>net.IP.To4\<close> of the Go standard library: a 4-byte slice is returned as it is, a
  16-byte slice with the IPv4-in-IPv6 prefix gives its last four bytes, anything else
  (\<^verbatim>\<open>nil\<close> included) gives \<^verbatim>\<open>nil\<close>.
\<close>

definition v4InV6Prefix :: bytes where
  "v4InV6Prefix = [0, 0, 0, 0, 0, 0, 0, 0, 0, 0, 0xff, 0xff]"

definition To4 :: "IP \<Rightarrow> IP" where
  "To4 ip = (case ip of
       None \<Rightarrow> None
     | Some b \<Rightarrow>
         if length b = 4 then Some b
         else if length b = 16 \<and> take 12 b = v4InV6Prefix then Some (drop 12 b)
         else None)"

text \<open>
  \<open>Marshal6 e ip\<close> and \<open>Marshal4 e ip\<close> stand for \<^verbatim>\<open>cm.Marshal()\<close> of an
  \<^verbatim>\<open>ipv6.ControlMessage\<close>, respectively \<^verbatim>\<open>ipv4.ControlMessage\<close>, whose only field
  set is \<^verbatim>\<open>Src = ip\<close>.
\<close>

definition oobWithSrc :: "env \<Rightarrow> IP \<Rightarrow> bytes" where
  "oobWithSrc e ip = (if To4 ip = None then Marshal6 e ip else Marshal4 e ip)"

text \<open>
  \<open>Parse6 e oob\<close> and \<open>Parse4 e oob\<close> stand for \<^verbatim>\<open>cm.Parse(oob)\<close> on a fresh control
  message: the error returned and the \<^verbatim>\<open>Dst\<close> field afterwards.
\<close>

definition parseDstFromOOB :: "env \<Rightarrow> bytes \<Rightarrow> IP" where
  "parseDstFromOOB e oob =
     (if fst (Parse6 e oob) = None \<and> snd (Parse6 e oob) \<noteq> None then snd (Parse6 e oob)
      else if fst (Parse4 e oob) = None \<and> snd (Parse4 e oob) \<noteq> None then snd (Parse4 e oob)
      else None)"

subsection \<open>The query handler\<close>

text \<open>
  What one handler goroutine does, in order. \<open>Cancel\<close> is the deferred
  \<^verbatim>\<open>cancel()\<close> of the timeout context.
\<close>

datatype event =
    PoolGet
  | PoolPut
  | Spawn
  | LogErr error
  | LogQuery QueryInfo
  | ResolveCall Context Query bytes
  | WriteMsg bytes bytes "UDPAddr option"
  | Cancel

text \<open>The variables the goroutine's closure captures from the loop.\<close>

record handler_args =
  h_buf :: bytes
  h_qsize :: int
  h_lip :: IP
  h_raddr :: "UDPAddr option"
  h_start :: int

datatype exit = Returned | Panicked

text \<open>
  The deferred calls, run last-registered first: \<^verbatim>\<open>cancel()\<close> when a timeout context
  was made, then the closure that puts the buffer back and logs the query. The closure
  reads \<^verbatim>\<open>rsize\<close>, \<^verbatim>\<open>ri\<close> and \<^verbatim>\<open>err\<close> as they are when the handler ends; \<open>now\<close> is
  the clock at that moment.
\<close>

definition deferred ::
  "env \<Rightarrow> handler_args \<Rightarrow> Query \<Rightarrow> int \<Rightarrow> ResolveInfo \<Rightarrow> error option \<Rightarrow> int \<Rightarrow> event list" where
  "deferred e a q rsize ri err now =
     (if 0 < Timeout e then [Cancel] else []) @
     [PoolPut,
      LogQuery \<lparr>PeerIP = q_PeerIP q, Protocol = ''UDP'', Type = q_Type q, Name = q_Name q,
                QuerySize = h_qsize a, ResponseSize = rsize, Duration = now - h_start a,
                UpstreamTransport = Transport ri, Error = err\<rparr>]"

text \<open>
  The body of the goroutine. \<open>rr\<close> is what \<^verbatim>\<open>p.Resolve\<close> returns (size, info, error)
  together with the bytes it stored into the buffer; \<open>wr\<close> is the error of
  \<^verbatim>\<open>WriteMsgUDP\<close>. The result is the events in order, the buffer at the end and how the
  goroutine ended. \<^verbatim>\<open>buf[:qsize]\<close> is evaluated before the closure is deferred, so a
  panic there runs nothing; \<^verbatim>\<open>buf[:rsize]\<close> is evaluated after, so a panic there still
  runs the deferred calls.
\<close>

definition handler ::
  "env \<Rightarrow> handler_args \<Rightarrow> int \<times> ResolveInfo \<times> error option \<times> bytes \<Rightarrow> error option \<Rightarrow> int
     \<Rightarrow> event list \<times> bytes \<times> exit" where
  "handler e a rr wr now =
     (case slice_to (h_buf a) (h_qsize a) of
        None \<Rightarrow> ([], h_buf a, Panicked)
      | Some payload \<Rightarrow>
          (case NewQuery e payload (addrIP e (h_raddr a)) of (q, err0) \<Rightarrow>
           (case rr of (rsize, ri, err, data) \<Rightarrow>
             let pre = (case err0 of None \<Rightarrow> [] | Some x \<Rightarrow> [LogErr x]);
                 ctx = (if 0 < Timeout e then WithTimeout (Timeout e) else Background);
                 call = [ResolveCall ctx q (h_buf a)];
                 buf' = overwrite (h_buf a) data
             in if err \<noteq> None then
                  (pre @ call @ deferred e a q rsize ri err now, buf', Returned)
                else if rsize > maxUDPSize then
                  (pre @ call @ deferred e a q rsize ri None now, buf', Returned)
                else
                  (case slice_to buf' rsize of
                     None \<Rightarrow> (pre @ call @ deferred e a q rsize ri None now, buf', Panicked)
                   | Some out \<Rightarrow>
                       (pre @ call @ [WriteMsg out (oobWithSrc e (h_lip a)) (h_raddr a)]
                          @ deferred e a q rsize ri wr now, buf', Returned)))))"

definition puts :: "event list \<Rightarrow> nat" where
  "puts evs = length (filter (\<lambda>ev. ev = PoolPut) evs)"

text \<open>The completion log entries and the datagrams written, in order.\<close>

fun log_entries :: "event list \<Rightarrow> QueryInfo list" where
  "log_entries [] = []"
| "log_entries (LogQuery qi # evs) = qi # log_entries evs"
| "log_entries (ev # evs) = log_entries evs"

fun writes :: "event list \<Rightarrow> (bytes \<times> bytes \<times> UDPAddr option) list" where
  "writes [] = []"
| "writes (WriteMsg out oob raddr # evs) = (out, oob, raddr) # writes evs"
| "writes (ev # evs) = writes evs"

text \<open>A handler the loop can have spawned: more than 14 bytes were received into the buffer.\<close>

definition received :: "handler_args \<Rightarrow> bool" where
  "received a \<longleftrightarrow> 14 < h_qsize a \<and> h_qsize a \<le> int (length (h_buf a))"

subsection \<open>Socket setup and receive\<close>

text \<open>
  \<open>oob4_len e\<close> and \<open>oob6_len e\<close> are the lengths of
  \<^verbatim>\<open>ipv4.NewControlMessage(FlagDst|FlagInterface)\<close> and of its IPv6 counterpart.
\<close>

definition udpOOBSize :: "env \<Rightarrow> nat" where
  "udpOOBSize e = (if oob4_len e > oob6_len e then oob4_len e else oob6_len e)"

text \<open>
  \<open>err6\<close> and \<open>err4\<close> are the results of the two \<^verbatim>\<open>SetControlMessage\<close> calls.
\<close>

definition setUDPDstOptions :: "error option \<Rightarrow> error option \<Rightarrow> error option" where
  "setUDPDstOptions err6 err4 = (if err6 \<noteq> None \<and> err4 \<noteq> None then err4 else None)"

text \<open>
  What the socket delivers to one \<^verbatim>\<open>ReadMsgUDP\<close>: an error, or a datagram with its
  payload, its control data and its sender. \<^verbatim>\<open>ReadMsgUDP(b, oob)\<close> of the standard
  library copies as much of the payload as fits into \<^verbatim>\<open>b\<close> and as much of the control
  data as fits into \<^verbatim>\<open>oob\<close>, and returns the two numbers of bytes copied.
\<close>

datatype arrival = Fail error | Arrive bytes bytes "UDPAddr option"

definition ReadMsgUDP ::
  "bytes \<Rightarrow> bytes \<Rightarrow> arrival \<Rightarrow> (int \<times> int \<times> UDPAddr option \<times> error option) \<times> bytes \<times> bytes" where
  "ReadMsgUDP b oob arr =
     (case arr of
        Fail err \<Rightarrow> ((0, 0, None, Some err), b, oob)
      | Arrive data ctl raddr \<Rightarrow>
          ((int (min (length data) (length b)), int (min (length ctl) (length oob)), raddr, None),
           overwrite b data, overwrite oob ctl))"

text \<open>
  \<^verbatim>\<open>readUDP\<close>: the returned tuple and the buffer afterwards. \<^verbatim>\<open>oob[:oobn]\<close> is within
  bounds, \<open>oobn\<close> being a number of bytes copied into \<^verbatim>\<open>oob\<close>.
\<close>

definition readUDP ::
  "env \<Rightarrow> bytes \<Rightarrow> arrival \<Rightarrow> (int \<times> IP \<times> UDPAddr option \<times> error option) \<times> bytes" where
  "readUDP e buf arr =
     (case ReadMsgUDP buf (replicate (udpOOBSize e) 0) arr of
        ((n, oobn, raddr, err), buf', oob) \<Rightarrow>
          (case err of
             Some x \<Rightarrow> ((- 1, None, None, Some x), buf')
           | None \<Rightarrow> ((n, parseDstFromOOB e (take (nat oobn) oob), raddr, None), buf')))"

subsection \<open>The buffer pool\<close>

text \<open>
  \<^verbatim>\<open>sync.Pool\<close>: \<^verbatim>\<open>Get\<close> removes and returns some pooled item, or calls \<^verbatim>\<open>New\<close>;
  which of the two, and which item, is the runtime's choice \<open>pick\<close>.
\<close>

definition bpool_New :: bytes where
  "bpool_New = replicate (nat maxUDPSize) 0"

definition bpool_Get :: "nat option \<Rightarrow> bytes list \<Rightarrow> bytes \<times> bytes list" where
  "bpool_Get pick pool =
     (case pick of
        None \<Rightarrow> (bpool_New, pool)
      | Some k \<Rightarrow>
          if k < length pool then (pool ! k, take k pool @ drop (Suc k) pool)
          else (bpool_New, pool))"

definition bpool_Put :: "bytes \<Rightarrow> bytes list \<Rightarrow> bytes list" where
  "bpool_Put b pool = b # pool"

subsection \<open>The dispatch loop and its goroutines\<close>

text \<open>
  The state of one call of \<^verbatim>\<open>serveUDP\<close>: the pool, the goroutines spawned and not yet
  finished, what happened so far, the number of buffers the loop has taken from the
  pool, the error \<^verbatim>\<open>serveUDP\<close> returned if it has, and whether a goroutine's panic has
  ended the process. A buffer is named by the number of the loop pass that took it from
  the pool, and every event carries the number of the buffer it concerns.
\<close>

record state =
  pool :: "bytes list"
  inflight :: "nat \<rightharpoonup> handler_args"
  trace :: "(nat \<times> event) list"
  acquired :: nat
  stopped :: "error option"
  crashed :: bool

text \<open>
  One pass of the \<^verbatim>\<open>for\<close> loop, from \<^verbatim>\<open>bpool.Get()\<close> to \<^verbatim>\<open>continue\<close>, \<^verbatim>\<open>return\<close>
  or the \<^verbatim>\<open>go\<close> statement. \<open>now\<close> is \<^verbatim>\<open>time.Now()\<close>.
\<close>

definition loop_pass :: "env \<Rightarrow> nat option \<Rightarrow> arrival \<Rightarrow> int \<Rightarrow> state \<Rightarrow> state" where
  "loop_pass e pick arr now s =
     (case bpool_Get pick (pool s) of (buf0, pool') \<Rightarrow>
      (case readUDP e buf0 arr of ((qsize, lip, raddr, err), buf) \<Rightarrow>
        let i = acquired s;
            s1 = s\<lparr>pool := pool', trace := trace s @ [(i, PoolGet)], acquired := Suc i\<rparr>
        in (case err of
              Some x \<Rightarrow>
                if temporary x then
                  s1\<lparr>pool := bpool_Put buf pool', trace := trace s1 @ [(i, PoolPut)]\<rparr>
                else s1\<lparr>stopped := Some x\<rparr>
            | None \<Rightarrow>
                if qsize \<le> 14 then
                  s1\<lparr>pool := bpool_Put buf pool', trace := trace s1 @ [(i, PoolPut)]\<rparr>
                else
                  s1\<lparr>inflight := (inflight s)(i \<mapsto>
                         \<lparr>h_buf = buf, h_qsize = qsize, h_lip = lip, h_raddr = raddr,
                          h_start = now\<rparr>),
                      trace := trace s1 @ [(i, Spawn)]\<rparr>)))"

text \<open>
  The goroutine of buffer \<open>k\<close> runs to its end. It owns its buffer until the deferred
  \<^verbatim>\<open>Put\<close>, so what it does before is independent of every other goroutine and of the
  loop, and its whole run is placed at the moment it ends. A panic in a goroutine ends
  the process.
\<close>

definition finish ::
  "env \<Rightarrow> nat \<Rightarrow> int \<times> ResolveInfo \<times> error option \<times> bytes \<Rightarrow> error option \<Rightarrow> int \<Rightarrow> state \<Rightarrow> state" where
  "finish e k rr wr now s =
     (case inflight s k of
        None \<Rightarrow> s
      | Some a \<Rightarrow>
          (case handler e a rr wr now of (evs, buf, ex) \<Rightarrow>
             s\<lparr>pool := (if PoolPut \<in> set evs then bpool_Put buf (pool s) else pool s),
               inflight := (inflight s)(k := None),
               trace := trace s @ map (Pair k) evs,
               crashed := (ex = Panicked)\<rparr>))"

text \<open>
  What can happen next: the loop makes a pass (while \<^verbatim>\<open>serveUDP\<close> has not returned), or
  a goroutine ends (goroutines outlive the return of \<^verbatim>\<open>serveUDP\<close>). A list of actions is
  one interleaving of the loop and its goroutines.
\<close>

datatype action =
    Recv "nat option" arrival int
  | Done nat "int \<times> ResolveInfo \<times> error option \<times> bytes" "error option" int

fun step :: "env \<Rightarrow> action \<Rightarrow> state \<Rightarrow> state" where
  "step e (Recv pick arr now) s =
     (if crashed s \<or> stopped s \<noteq> None then s else loop_pass e pick arr now s)"
| "step e (Done k rr wr now) s =
     (if crashed s then s else finish e k rr wr now s)"

text \<open>The dynamic type of the \<^verbatim>\<open>net.PacketConn\<close> handed to \<^verbatim>\<open>serveUDP\<close>.\<close>

datatype listener = UDPConn | OtherConn

definition start :: "listener \<Rightarrow> error option \<Rightarrow> error option \<Rightarrow> state" where
  "start l err6 err4 =
     (let s0 = \<lparr>pool = [], inflight = Map.empty, trace = [], acquired = 0, stopped = None,
                crashed = False\<rparr>
      in case l of
           OtherConn \<Rightarrow> s0\<lparr>stopped := Some (PlainError ''not a UDP socket'')\<rparr>
         | UDPConn \<Rightarrow>
             (case setUDPDstOptions err6 err4 of
                Some err \<Rightarrow> s0\<lparr>stopped := Some (Wrapped ''setUDPDstOptions: '' err)\<rparr>
              | None \<Rightarrow> s0))"

definition run :: "env \<Rightarrow> action list \<Rightarrow> state \<Rightarrow> state" where
  "run e acts s = foldl (\<lambda>s act. step e act s) s acts"

definition serveUDP :: "env \<Rightarrow> listener \<Rightarrow> error option \<Rightarrow> error option \<Rightarrow> action list \<Rightarrow> state" where
  "serveUDP e l err6 err4 acts = run e acts (start l err6 err4)"

definition gets_of :: "nat \<Rightarrow> (nat \<times> event) list \<Rightarrow> nat" where
  "gets_of i tr = length (filter (\<lambda>x. x = (i, PoolGet)) tr)"

definition puts_of :: "nat \<Rightarrow> (nat \<times> event) list \<Rightarrow> nat" where
  "puts_of i tr = length (filter (\<lambda>x. x = (i, PoolPut)) tr)"

text \<open>
  The buffer the loop held when \<^verbatim>\<open>serveUDP\<close> returned from inside the loop: the last one
  taken.
\<close>

definition dropped :: "state \<Rightarrow> nat \<Rightarrow> bool" where
  "dropped s i \<longleftrightarrow> stopped s \<noteq> None \<and> Suc i = acquired s"

text \<open>The three ways a pass of the loop ends.\<close>

definition pass_put :: "bytes \<Rightarrow> bytes list \<Rightarrow> state \<Rightarrow> state" where
  "pass_put buf pool' s =
     s\<lparr>pool := bpool_Put buf pool',
       trace := trace s @ [(acquired s, PoolGet), (acquired s, PoolPut)],
       acquired := Suc (acquired s)\<rparr>"

definition pass_stop :: "error \<Rightarrow> bytes list \<Rightarrow> state \<Rightarrow> state" where
  "pass_stop x pool' s =
     s\<lparr>pool := pool', trace := trace s @ [(acquired s, PoolGet)],
       acquired := Suc (acquired s), stopped := Some x\<rparr>"

definition pass_spawn :: "handler_args \<Rightarrow> bytes list \<Rightarrow> state \<Rightarrow> state" where
  "pass_spawn a pool' s =
     s\<lparr>pool := pool', inflight := (inflight s)(acquired s \<mapsto> a),
       trace := trace s @ [(acquired s, PoolGet), (acquired s, Spawn)],
       acquired := Suc (acquired s)\<rparr>"

text \<open>
  The accounting invariant of a run: every goroutine in flight holds a buffer the loop
  took, of the pool's size, with more than 14 bytes received into it; every pooled
  buffer has the pool's size; every buffer taken was taken once; and a buffer has been
  put back once if its pass or its goroutine is over, and not at all otherwise.
\<close>

definition accounted :: "state \<Rightarrow> bool" where
  "accounted s \<longleftrightarrow>
     (\<forall>k a. inflight s k = Some a \<longrightarrow>
        k < acquired s \<and> \<not> dropped s k \<and> received a \<and> int (length (h_buf a)) = maxUDPSize) \<and>
     (\<forall>b \<in> set (pool s). int (length b) = maxUDPSize) \<and>
     (\<forall>i. gets_of i (trace s) = (if i < acquired s then 1 else 0)) \<and>
     (\<forall>i. puts_of i (trace s) =
        (if i < acquired s \<and> inflight s i = None \<and> \<not> dropped s i then 1 else 0))"

subsection \<open>A concrete environment\<close>

text \<open>
  A toy codec (a family tag followed by the address bytes), a query constructor that
  accepts everything, and one datagram of 20 bytes from 192.0.2.7 to 192.0.2.1.
\<close>

definition example_env :: env where
  "example_env =
     \<lparr>Timeout = 5, oob4_len = 32, oob6_len = 40,
      addrIP = (\<lambda>ra. case ra of None \<Rightarrow> None | Some x \<Rightarrow> addr_IP x),
      NewQuery = (\<lambda>payload ip. (\<lparr>q_PeerIP = ip, q_Type = 1, q_Name = ''example.com.''\<rparr>, None)),
      Marshal4 = (\<lambda>ip. 4 # (case To4 ip of None \<Rightarrow> [] | Some b \<Rightarrow> b)),
      Marshal6 = (\<lambda>ip. 6 # (case ip of None \<Rightarrow> [] | Some b \<Rightarrow> b)),
      Parse4 = (\<lambda>oob. case oob of [] \<Rightarrow> (None, None)
                  | t # b \<Rightarrow> if t = 4 \<and> length b = 4 then (None, Some b)
                             else if t = 6 then (None, None)
                             else (Some (PlainError ''short buffer''), None)),
      Parse6 = (\<lambda>oob. case oob of [] \<Rightarrow> (None, None)
                  | t # b \<Rightarrow> if t = 6 \<and> length b = 16 then (None, Some b)
                             else if t = 4 then (None, None)
                             else (Some (PlainError ''short buffer''), None))\<rparr>"

definition example_peer :: "UDPAddr option" where
  "example_peer = Some \<lparr>addr_IP = Some [192, 0, 2, 7], addr_Port = 5353, addr_Zone = ''''\<rparr>"

definition example_datagram :: arrival where
  "example_datagram = Arrive (replicate 20 1) [4, 192, 0, 2, 1] example_peer"

definition example_args :: handler_args where
  "example_args =
     \<lparr>h_buf = overwrite bpool_New (replicate 20 1), h_qsize = 20, h_lip = Some [192, 0, 2, 1],
      h_raddr = example_peer, h_start = 100\<rparr>"

definition example_info :: ResolveInfo where
  "example_info = \<lparr>Transport = ''doh''\<rparr>"

definition example_ip6 :: bytes where
  "example_ip6 = [0x20, 0x01, 0x0d, 0xb8, 0, 0, 0, 0, 0, 0, 0, 0, 0, 0, 0, 1]"

definition failing_env :: env where
  "failing_env =
     example_env\<lparr>NewQuery := \<lambda>payload ip.
        (\<lparr>q_PeerIP = ip, q_Type = 0, q_Name = ''''\<rparr>, Some (PlainError ''short buffer''))\<rparr>"

definition example_run :: "action list" where
  "example_run =
     [Recv None example_datagram 100,
      Recv None (Arrive (replicate 10 1) [] example_peer) 101,
      Done 0 (40, example_info, None, replicate 40 2) None 130,
      Recv (Some 0) (Fail (NetError ''i/o timeout'' True)) 131,
      Recv None (Fail (PlainError ''use of closed network connection'')) 140]"

section \<open>Auxiliary facts\<close>

lemma length_overwrite [simp]: "length (overwrite b d) = length b"
  by (simp add: overwrite_def)

lemma log_entries_append [simp]: "log_entries (xs @ ys) = log_entries xs @ log_entries ys"
  by (induction xs rule: log_entries.induct) auto

lemma writes_append [simp]: "writes (xs @ ys) = writes xs @ writes ys"
  by (induction xs rule: writes.induct) auto

lemma handler_releases_once:
  assumes "received a"
  shows "puts (fst (handler e a rr wr now)) = 1 \<and> length (log_entries (fst (handler e a rr wr now))) = 1"
  using assms
  by (auto simp: handler_def received_def slice_to_def deferred_def puts_def Let_def
      split: prod.splits option.splits)

lemma handler_no_get: "PoolGet \<notin> set (fst (handler e a rr wr now))"
  by (auto simp: handler_def slice_to_def deferred_def Let_def split: prod.splits option.splits)

lemma handler_buf_length: "length (fst (snd (handler e a rr wr now))) = length (h_buf a)"
  by (auto simp: handler_def slice_to_def Let_def split: prod.splits option.splits)

lemma handler_writes:
  assumes "received a" and "int (length (h_buf a)) = maxUDPSize"
  shows "maxUDPSize < rsize \<Longrightarrow> writes (fst (handler e a (rsize, ri, None, data) wr now)) = []"
    and "0 \<le> rsize \<Longrightarrow> rsize \<le> maxUDPSize \<Longrightarrow>
         writes (fst (handler e a (rsize, ri, None, data) wr now)) =
           [(take (nat rsize) (overwrite (h_buf a) data), oobWithSrc e (h_lip a), h_raddr a)]"
    and "writes (fst (handler e a (rsize, ri, Some x, data) wr now)) = []"
  using assms
  by (auto simp: handler_def received_def slice_to_def deferred_def Let_def
      split: prod.splits option.splits)

lemma handler_resolver_error:
  assumes "received a"
  shows "map ResponseSize (log_entries (fst (handler e a (rsize, ri, Some x, data) wr now))) = [rsize]"
    and "map Error (log_entries (fst (handler e a (rsize, ri, Some x, data) wr now))) = [Some x]"
  using assms
  by (auto simp: handler_def received_def slice_to_def deferred_def Let_def
      split: prod.splits option.splits)

lemma handler_construction_error:
  assumes "received a"
    and "NewQuery e (take (nat (h_qsize a)) (h_buf a)) (addrIP e (h_raddr a)) = (q, Some x)"
  shows "handler e a rr wr now =
           (case handler (e\<lparr>NewQuery := \<lambda>payload ip. (q, None)\<rparr>) a rr wr now of
              (evs, buf, ex) \<Rightarrow> (LogErr x # evs, buf, ex))"
    and "ResolveCall (if 0 < Timeout e then WithTimeout (Timeout e) else Background) q (h_buf a)
           \<in> set (fst (handler e a rr wr now))"
  using assms
  by (auto simp: handler_def received_def slice_to_def deferred_def oobWithSrc_def Let_def
      split: prod.splits option.splits)

lemma bpool_Get_length:
  assumes "\<forall>b \<in> set pl. int (length b) = maxUDPSize"
  shows "int (length (fst (bpool_Get pick pl))) = maxUDPSize"
    and "\<forall>b \<in> set (snd (bpool_Get pick pl)). int (length b) = maxUDPSize"
  using assms
  by (auto simp: bpool_Get_def bpool_New_def maxUDPSize_def split: option.splits dest: in_set_takeD in_set_dropD)

lemma readUDP_length: "length (snd (readUDP e buf arr)) = length buf"
  by (auto simp: readUDP_def ReadMsgUDP_def split: arrival.splits prod.splits option.splits)

lemma readUDP_size:
  "readUDP e buf arr = ((n, lip, raddr, None), buf') \<Longrightarrow> n \<le> int (length buf)"
  by (auto simp: readUDP_def ReadMsgUDP_def split: arrival.splits prod.splits option.splits)

lemma readUDP_Arrive:
  "readUDP e buf (Arrive data ctl raddr) =
     ((int (min (length data) (length buf)),
       parseDstFromOOB e (take (nat (int (min (length ctl) (udpOOBSize e))))
          (overwrite (replicate (udpOOBSize e) 0) ctl)),
       raddr, None),
      overwrite buf data)"
  by (simp add: readUDP_def ReadMsgUDP_def)

lemma readUDP_Fail: "readUDP e buf (Fail x) = ((- 1, None, None, Some x), buf)"
  by (simp add: readUDP_def ReadMsgUDP_def)

lemma delivered_control:
  "take (min (length ctl) n) (overwrite (replicate n 0) ctl) = take n ctl"
  by (simp add: overwrite_def min_def)

lemma gets_of_append [simp]: "gets_of i (xs @ ys) = gets_of i xs + gets_of i ys"
  by (simp add: gets_of_def)

lemma puts_of_append [simp]: "puts_of i (xs @ ys) = puts_of i xs + puts_of i ys"
  by (simp add: puts_of_def)

lemma gets_of_simps [simp]:
  "gets_of i [] = 0"
  "gets_of i ((j, ev) # tr) = (if j = i \<and> ev = PoolGet then 1 else 0) + gets_of i tr"
  by (auto simp: gets_of_def)

lemma puts_of_simps [simp]:
  "puts_of i [] = 0"
  "puts_of i ((j, ev) # tr) = (if j = i \<and> ev = PoolPut then 1 else 0) + puts_of i tr"
  by (auto simp: puts_of_def)

lemma gets_of_tagged: "gets_of i (map (Pair k) evs) = (if i = k then length (filter (\<lambda>ev. ev = PoolGet) evs) else 0)"
  by (induction evs) auto

lemma puts_of_tagged: "puts_of i (map (Pair k) evs) = (if i = k then puts evs else 0)"
  by (induction evs) (auto simp: puts_def)

lemma accountedI:
  assumes "\<And>k a. inflight s k = Some a \<Longrightarrow>
             k < acquired s \<and> \<not> dropped s k \<and> received a \<and> int (length (h_buf a)) = maxUDPSize"
    and "\<And>b. b \<in> set (pool s) \<Longrightarrow> int (length b) = maxUDPSize"
    and "\<And>i. gets_of i (trace s) = (if i < acquired s then 1 else 0)"
    and "\<And>i. puts_of i (trace s) =
           (if i < acquired s \<and> inflight s i = None \<and> \<not> dropped s i then 1 else 0)"
  shows "accounted s"
  using assms unfolding accounted_def by blast

lemma accounted_inflight:
  "accounted s \<Longrightarrow> inflight s k = Some a \<Longrightarrow>
     k < acquired s \<and> \<not> dropped s k \<and> received a \<and> int (length (h_buf a)) = maxUDPSize"
  unfolding accounted_def by blast

lemma accounted_pool: "accounted s \<Longrightarrow> b \<in> set (pool s) \<Longrightarrow> int (length b) = maxUDPSize"
  unfolding accounted_def by blast

lemma accounted_gets: "accounted s \<Longrightarrow> gets_of i (trace s) = (if i < acquired s then 1 else 0)"
  unfolding accounted_def by blast

lemma accounted_puts:
  "accounted s \<Longrightarrow> puts_of i (trace s) =
     (if i < acquired s \<and> inflight s i = None \<and> \<not> dropped s i then 1 else 0)"
  unfolding accounted_def by blast

lemma not_dropped_running [simp]: "stopped s = None \<Longrightarrow> \<not> dropped s i"
  by (simp add: dropped_def)

lemma loop_pass_cases:
  assumes "bpool_Get pick (pool s) = (buf0, pool')"
    and "readUDP e buf0 arr = ((qsize, lip, raddr, err), buf)"
  shows "loop_pass e pick arr now s =
     (case err of
        Some x \<Rightarrow> if temporary x then pass_put buf pool' s else pass_stop x pool' s
      | None \<Rightarrow>
          if qsize \<le> 14 then pass_put buf pool' s
          else pass_spawn \<lparr>h_buf = buf, h_qsize = qsize, h_lip = lip, h_raddr = raddr,
                           h_start = now\<rparr> pool' s)"
  using assms
  by (simp add: loop_pass_def pass_put_def pass_stop_def pass_spawn_def Let_def split: option.splits)

lemma loop_pass_Fail:
  "loop_pass e pick (Fail y) now s =
     (if temporary y
      then pass_put (fst (bpool_Get pick (pool s))) (snd (bpool_Get pick (pool s))) s
      else pass_stop y (snd (bpool_Get pick (pool s))) s)"
  using loop_pass_cases[of pick s "fst (bpool_Get pick (pool s))" "snd (bpool_Get pick (pool s))"
      e "Fail y" "- 1" None None "Some y" "fst (bpool_Get pick (pool s))" now]
  by (simp add: readUDP_Fail)

lemma accounted_pass_put:
  assumes acc: "accounted s" and run: "stopped s = None"
    and lb: "int (length buf) = maxUDPSize"
    and lp: "\<And>b. b \<in> set pool' \<Longrightarrow> int (length b) = maxUDPSize"
  shows "accounted (pass_put buf pool' s)"
proof (rule accountedI)
  fix k a assume "inflight (pass_put buf pool' s) k = Some a"
  then have "inflight s k = Some a" by (simp add: pass_put_def)
  from accounted_inflight[OF acc this] run
  show "k < acquired (pass_put buf pool' s) \<and> \<not> dropped (pass_put buf pool' s) k \<and> received a
          \<and> int (length (h_buf a)) = maxUDPSize"
    by (simp add: pass_put_def dropped_def)
next
  fix b assume "b \<in> set (pool (pass_put buf pool' s))"
  then show "int (length b) = maxUDPSize" using lb lp by (auto simp: pass_put_def bpool_Put_def)
next
  fix i show "gets_of i (trace (pass_put buf pool' s)) = (if i < acquired (pass_put buf pool' s) then 1 else 0)"
    using accounted_gets[OF acc, of i] by (auto simp: pass_put_def)
next
  fix i
  have "inflight s (acquired s) = None"
    using accounted_inflight[OF acc, of "acquired s"] by (cases "inflight s (acquired s)") auto
  then show "puts_of i (trace (pass_put buf pool' s)) =
      (if i < acquired (pass_put buf pool' s) \<and> inflight (pass_put buf pool' s) i = None
          \<and> \<not> dropped (pass_put buf pool' s) i then 1 else 0)"
    using accounted_puts[OF acc, of i] run by (auto simp: pass_put_def dropped_def)
qed

lemma accounted_pass_stop:
  assumes acc: "accounted s" and run: "stopped s = None"
    and lp: "\<And>b. b \<in> set pool' \<Longrightarrow> int (length b) = maxUDPSize"
  shows "accounted (pass_stop x pool' s)"
proof (rule accountedI)
  fix k a assume "inflight (pass_stop x pool' s) k = Some a"
  then have "inflight s k = Some a" by (simp add: pass_stop_def)
  from accounted_inflight[OF acc this]
  show "k < acquired (pass_stop x pool' s) \<and> \<not> dropped (pass_stop x pool' s) k \<and> received a
          \<and> int (length (h_buf a)) = maxUDPSize"
    by (simp add: pass_stop_def dropped_def)
next
  fix b assume "b \<in> set (pool (pass_stop x pool' s))"
  then show "int (length b) = maxUDPSize" using lp by (auto simp: pass_stop_def)
next
  fix i show "gets_of i (trace (pass_stop x pool' s)) = (if i < acquired (pass_stop x pool' s) then 1 else 0)"
    using accounted_gets[OF acc, of i] by (auto simp: pass_stop_def)
next
  fix i
  show "puts_of i (trace (pass_stop x pool' s)) =
      (if i < acquired (pass_stop x pool' s) \<and> inflight (pass_stop x pool' s) i = None
          \<and> \<not> dropped (pass_stop x pool' s) i then 1 else 0)"
    using accounted_puts[OF acc, of i] run by (auto simp: pass_stop_def dropped_def)
qed

lemma accounted_pass_spawn:
  assumes acc: "accounted s" and run: "stopped s = None"
    and ra: "received a" and la: "int (length (h_buf a)) = maxUDPSize"
    and lp: "\<And>b. b \<in> set pool' \<Longrightarrow> int (length b) = maxUDPSize"
  shows "accounted (pass_spawn a pool' s)"
proof (rule accountedI)
  fix k a' assume h: "inflight (pass_spawn a pool' s) k = Some a'"
  show "k < acquired (pass_spawn a pool' s) \<and> \<not> dropped (pass_spawn a pool' s) k \<and> received a'
          \<and> int (length (h_buf a')) = maxUDPSize"
  proof (cases "k = acquired s")
    case True
    with h have "a' = a" by (simp add: pass_spawn_def)
    with True ra la run show ?thesis by (simp add: pass_spawn_def dropped_def)
  next
    case False
    with h have "inflight s k = Some a'" by (simp add: pass_spawn_def)
    from accounted_inflight[OF acc this] run show ?thesis by (simp add: pass_spawn_def dropped_def)
  qed
next
  fix b assume "b \<in> set (pool (pass_spawn a pool' s))"
  then show "int (length b) = maxUDPSize" using lp by (auto simp: pass_spawn_def)
next
  fix i show "gets_of i (trace (pass_spawn a pool' s)) = (if i < acquired (pass_spawn a pool' s) then 1 else 0)"
    using accounted_gets[OF acc, of i] by (auto simp: pass_spawn_def)
next
  fix i
  show "puts_of i (trace (pass_spawn a pool' s)) =
      (if i < acquired (pass_spawn a pool' s) \<and> inflight (pass_spawn a pool' s) i = None
          \<and> \<not> dropped (pass_spawn a pool' s) i then 1 else 0)"
    using accounted_puts[OF acc, of i] run by (auto simp: pass_spawn_def dropped_def)
qed

lemma accounted_loop_pass:
  assumes acc: "accounted s" and run: "stopped s = None"
  shows "accounted (loop_pass e pick arr now s)"
proof -
  obtain buf0 pool' where g: "bpool_Get pick (pool s) = (buf0, pool')" by (cases "bpool_Get pick (pool s)")
  obtain qsize lip raddr err buf where r: "readUDP e buf0 arr = ((qsize, lip, raddr, err), buf)"
    by (cases "readUDP e buf0 arr") auto
  from acc have pl: "\<forall>b \<in> set (pool s). int (length b) = maxUDPSize" by (simp add: accounted_def)
  from bpool_Get_length[OF pl, of pick] g have l0: "int (length buf0) = maxUDPSize"
    and lp: "\<And>b. b \<in> set pool' \<Longrightarrow> int (length b) = maxUDPSize" by auto
  from readUDP_length[of e buf0 arr] r l0 have lb: "int (length buf) = maxUDPSize" by simp
  have sz: "err = None \<Longrightarrow> qsize \<le> int (length buf)"
    using readUDP_size[of e buf0 arr qsize lip raddr buf] r readUDP_length[of e buf0 arr] by simp
  show ?thesis
  proof (cases err)
    case (Some x)
    then show ?thesis
      using loop_pass_cases[OF g r, of now] accounted_pass_put[OF acc run lb lp]
        accounted_pass_stop[OF acc run lp] by simp
  next
    case None
    show ?thesis
    proof (cases "qsize \<le> 14")
      case True
      with None show ?thesis
        using loop_pass_cases[OF g r, of now] accounted_pass_put[OF acc run lb lp] by simp
    next
      case False
      let ?a = "\<lparr>h_buf = buf, h_qsize = qsize, h_lip = lip, h_raddr = raddr, h_start = now\<rparr>"
      from False sz[OF None] have "received ?a" by (simp add: received_def)
      moreover from lb have "int (length (h_buf ?a)) = maxUDPSize" by simp
      ultimately have "accounted (pass_spawn ?a pool' s)"
        using accounted_pass_spawn[OF acc run _ _ lp] by blast
      with None False show ?thesis using loop_pass_cases[OF g r, of now] by simp
    qed
  qed
qed

lemma accounted_finish:
  assumes acc: "accounted s"
  shows "accounted (finish e k rr wr now s)"
proof (cases "inflight s k")
  case None
  then show ?thesis using assms by (simp add: finish_def)
next
  case (Some a)
  obtain evs buf ex where h: "handler e a rr wr now = (evs, buf, ex)" by (cases "handler e a rr wr now")
  from accounted_inflight[OF acc Some] have ra: "received a" and la: "int (length (h_buf a)) = maxUDPSize"
    and ka: "k < acquired s" and kd: "\<not> dropped s k"
    by auto
  from handler_releases_once[OF ra, of e rr wr now] h have p1: "puts evs = 1" by simp
  from handler_no_get[of e a rr wr now] h have g0: "filter (\<lambda>ev. ev = PoolGet) evs = []"
    by (auto simp: filter_empty_conv)
  from handler_buf_length[of e a rr wr now] h la have lb: "int (length buf) = maxUDPSize" by simp
  let ?s = "finish e k rr wr now s"
  have fs: "?s = s\<lparr>pool := (if PoolPut \<in> set evs then bpool_Put buf (pool s) else pool s),
               inflight := (inflight s)(k := None),
               trace := trace s @ map (Pair k) evs,
               crashed := (ex = Panicked)\<rparr>"
    using Some h by (simp add: finish_def)
  show ?thesis
  proof (rule accountedI)
    fix j a' assume "inflight ?s j = Some a'"
    then have "inflight s j = Some a'" by (simp add: fs split: if_splits)
    from accounted_inflight[OF acc this]
    show "j < acquired ?s \<and> \<not> dropped ?s j \<and> received a' \<and> int (length (h_buf a')) = maxUDPSize"
      by (simp add: fs dropped_def)
  next
    fix b assume "b \<in> set (pool ?s)"
    then show "int (length b) = maxUDPSize"
      using lb accounted_pool[OF acc, of b] by (auto simp: fs bpool_Put_def split: if_splits)
  next
    fix i show "gets_of i (trace ?s) = (if i < acquired ?s then 1 else 0)"
      using accounted_gets[OF acc, of i] g0 by (simp add: fs gets_of_tagged)
  next
    fix i
    show "puts_of i (trace ?s) =
        (if i < acquired ?s \<and> inflight ?s i = None \<and> \<not> dropped ?s i then 1 else 0)"
      using accounted_puts[OF acc, of i] p1 ka kd Some
      by (auto simp: fs puts_of_tagged dropped_def)
  qed
qed

lemma accounted_step: "accounted s \<Longrightarrow> accounted (step e act s)"
  by (cases act) (auto intro: accounted_loop_pass accounted_finish)

lemma accounted_run: "accounted s \<Longrightarrow> accounted (run e acts s)"
  unfolding run_def by (induction acts arbitrary: s) (auto intro: accounted_step)

lemma accounted_start: "accounted (start l err6 err4)"
  by (auto simp: accounted_def start_def Let_def dropped_def split: listener.splits option.splits)

lemma accounted_serveUDP: "accounted (serveUDP e l err6 err4 acts)"
  unfolding serveUDP_def by (rule accounted_run[OF accounted_start])

lemma spawned_received:
  assumes "inflight (serveUDP e l err6 err4 acts) k = Some a"
  shows "received a" and "int (length (h_buf a)) = maxUDPSize"
  using accounted_inflight[OF accounted_serveUDP assms] by simp_all

lemma long_datagram_spawns:
  assumes "accounted s" and "stopped s = None" and "\<not> crashed s" and "14 < length data"
  shows "inflight (step e (Recv pick (Arrive data ctl raddr) now) s) (acquired s) =
           Some \<lparr>h_buf = overwrite (fst (bpool_Get pick (pool s))) data,
                 h_qsize = int (min (length data) (nat maxUDPSize)),
                 h_lip = parseDstFromOOB e (take (udpOOBSize e) ctl),
                 h_raddr = raddr, h_start = now\<rparr>"
proof -
  obtain buf0 pool' where g: "bpool_Get pick (pool s) = (buf0, pool')"
    by (cases "bpool_Get pick (pool s)")
  from assms(1) have "\<forall>b \<in> set (pool s). int (length b) = maxUDPSize"
    by (simp add: accounted_def)
  from bpool_Get_length(1)[OF this, of pick] g have l0: "length buf0 = nat maxUDPSize"
    by simp
  have big: "\<not> int (min (length data) (length buf0)) \<le> 14"
    using assms(4) l0 by (simp add: maxUDPSize_def)
  show ?thesis
    using assms(2,3) big l0 g loop_pass_cases[OF g readUDP_Arrive, of e data ctl raddr now]
    by (simp add: pass_spawn_def delivered_control)
qed

lemma stopped_finish [simp]: "stopped (finish e k rr wr now s) = stopped s"
  by (simp add: finish_def split: option.splits prod.splits)

lemma stopped_loop_pass_Arrive [simp]:
  "stopped (loop_pass e pick (Arrive data ctl raddr) now s) = stopped s"
proof -
  obtain buf0 pool' where g: "bpool_Get pick (pool s) = (buf0, pool')"
    by (cases "bpool_Get pick (pool s)")
  show ?thesis
    using loop_pass_cases[OF g readUDP_Arrive, of e data ctl raddr now]
    by (simp add: pass_put_def pass_spawn_def)
qed

lemma stopped_step:
  assumes "stopped (step e act s) = Some x"
  shows "stopped s = Some x \<or>
         (stopped s = None \<and> \<not> temporary x \<and> (\<exists>pick now. act = Recv pick (Fail x) now))"
proof (cases act)
  case (Recv pick arr now)
  show ?thesis
  proof (cases arr)
    case (Fail y)
    with Recv assms show ?thesis
      by (auto simp: loop_pass_Fail pass_put_def pass_stop_def split: if_splits)
  next
    case (Arrive data ctl raddr)
    with Recv assms show ?thesis by (auto split: if_splits)
  qed
next
  case (Done k rr wr now)
  with assms show ?thesis by (auto split: if_splits)
qed

lemma stopped_run:
  assumes "stopped (run e acts s) = Some x"
  shows "stopped s = Some x \<or>
         (stopped s = None \<and> \<not> temporary x \<and> (\<exists>pick now. Recv pick (Fail x) now \<in> set acts))"
  using assms
proof (induction acts arbitrary: s)
  case Nil
  then show ?case by (simp add: run_def)
next
  case (Cons act acts)
  from Cons.prems have "stopped (run e acts (step e act s)) = Some x" by (simp add: run_def)
  from Cons.IH[OF this] show ?case
  proof
    assume "stopped (step e act s) = Some x"
    from stopped_step[OF this] show ?thesis by auto
  next
    assume h: "stopped (step e act s) = None \<and> \<not> temporary x
        \<and> (\<exists>pick now. Recv pick (Fail x) now \<in> set acts)"
    have "stopped s = None"
    proof (cases "stopped s")
      case None then show ?thesis .
    next
      case (Some y)
      then have "step e act s = s \<or> (\<exists>k rr wr now. act = Done k rr wr now)"
        by (cases act) auto
      with Some have "stopped (step e act s) = Some y"
        by (cases act) (auto split: if_splits)
      with h show ?thesis by simp
    qed
    with h show ?thesis by auto
  qed
qed

lemma stopped_start:
  "stopped (start l err6 err4) = Some x \<longleftrightarrow>
     (l = OtherConn \<and> x = PlainError ''not a UDP socket'') \<or>
     (l = UDPConn \<and> err6 \<noteq> None \<and> (\<exists>y. err4 = Some y \<and> x = Wrapped ''setUDPDstOptions: '' y))"
  by (cases l) (auto simp: start_def setUDPDstOptions_def)

lemma stopped_start_None:
  "stopped (start l err6 err4) = None \<longleftrightarrow> l = UDPConn \<and> (err6 = None \<or> err4 = None)"
  by (cases l) (auto simp: start_def setUDPDstOptions_def)

lemmas example_defs =
  serveUDP_def run_def start_def setUDPDstOptions_def loop_pass_def bpool_Get_def bpool_Put_def
  readUDP_def ReadMsgUDP_def example_datagram_def example_args_def maxUDPSize_def
  udpOOBSize_def example_env_def parseDstFromOOB_def Let_def overwrite_def bpool_New_def

lemma example_spawned:
  "inflight (serveUDP example_env UDPConn None None [Recv None example_datagram 100]) 0
     = Some example_args"
  by (simp add: example_defs)

lemma failing_spawned:
  "inflight (serveUDP failing_env UDPConn None None [Recv None example_datagram 100]) 0
     = Some example_args"
  by (simp add: failing_env_def example_defs)

lemma example_run_state:
  "acquired (serveUDP example_env UDPConn None None example_run) = 4"
  "inflight (serveUDP example_env UDPConn None None example_run) 0 = None"
  "inflight (serveUDP example_env UDPConn None None example_run) (Suc 0) = None"
  "inflight (serveUDP example_env UDPConn None None example_run) 2 = None"
  "inflight (serveUDP example_env UDPConn None None example_run) 3 = None"
  "stopped (serveUDP example_env UDPConn None None example_run)
     = Some (PlainError ''use of closed network connection'')"
  by code_simp+

lemma example_Parse6:
  "Parse6 example_env (6 # example_ip6) = (None, Some example_ip6)"
  "Parse6 example_env [4, 192, 0, 2, 1] = (None, None)"
  "Parse6 example_env [] = (None, None)"
  "Parse6 example_env [9, 9] = (Some (PlainError ''short buffer''), None)"
  by (simp_all add: example_env_def example_ip6_def)

lemma example_Parse4:
  "Parse4 example_env [4, 192, 0, 2, 1] = (None, Some [192, 0, 2, 1])"
  "Parse4 example_env [] = (None, None)"
  "Parse4 example_env [9, 9] = (Some (PlainError ''short buffer''), None)"
  by (simp_all add: example_env_def)

lemma example_To4:
  "To4 (Some example_ip6) = None"
  "To4 (Some [192, 0, 2, 1]) = Some [192, 0, 2, 1]"
  "To4 (Some [0, 0, 0, 0, 0, 0, 0, 0, 0, 0, 0xff, 0xff, 192, 0, 2, 1]) = Some [192, 0, 2, 1]"
  "To4 None = None"
  by (simp_all add: To4_def example_ip6_def v4InV6Prefix_def)

section \<open>The query handler\<close>

text \<open>
  Claim C1. A handler spawned by the loop puts its buffer back into the pool exactly once
  and writes exactly one completion log entry, whatever the query constructor, the
  resolver and the socket write return: construction error, resolver error, oversized
  response, write error, success, and also the panic of \<^verbatim>\<open>buf[:rsize]\<close> on a negative
  size, after which the deferred calls still run. The hypothesis says that \<open>a\<close> is a
  handler in flight in some run of \<^verbatim>\<open>serveUDP\<close>.
\<close>

theorem handler_releases_buffer_once:
  assumes "inflight (serveUDP e l err6 err4 acts) k = Some a"
  shows "puts (fst (handler e a rr wr now)) = 1
       \<and> length (log_entries (fst (handler e a rr wr now))) = 1"
  using handler_releases_once[OF spawned_received(1)[OF assms]] .

theorem handler_releases_buffer_once_witness:
  "inflight (serveUDP example_env UDPConn None None [Recv None example_datagram 100]) 0
     = Some example_args
   \<and> puts (fst (handler example_env example_args (40, example_info, None, replicate 40 2) None 130)) = 1
   \<and> length (log_entries (fst (handler example_env example_args
        (40, example_info, None, replicate 40 2) None 130))) = 1"
proof -
  have h: "inflight (serveUDP example_env UDPConn None None [Recv None example_datagram 100]) 0
     = Some example_args"
    by (simp add: example_defs)
  from handler_releases_buffer_once[OF h] h show ?thesis by blast
qed

text \<open>
  Claim C4. When the resolver succeeds in a spawned handler, a response size above 512
  gives no write at all, and a response size from 0 to 512 gives exactly one write: of
  the first \<open>rsize\<close> bytes of the buffer as the resolver left it, with the control data
  \<^verbatim>\<open>oobWithSrc(lip)\<close>, to the address the handler captured, which by
  \<open>long_datagram_spawns\<close> is the sender of its datagram. A response size is a number
  of bytes, so \<open>0 \<le> rsize\<close>; on a negative size the code panics.
\<close>

theorem handler_write_policy:
  assumes "inflight (serveUDP e l err6 err4 acts) k = Some a"
  shows "(maxUDPSize < rsize \<longrightarrow>
            writes (fst (handler e a (rsize, ri, None, data) wr now)) = [])
       \<and> (0 \<le> rsize \<and> rsize \<le> maxUDPSize \<longrightarrow>
            writes (fst (handler e a (rsize, ri, None, data) wr now)) =
              [(take (nat rsize) (overwrite (h_buf a) data), oobWithSrc e (h_lip a), h_raddr a)])"
  using handler_writes(1,2)[OF spawned_received[OF assms]] by blast

theorem handler_write_policy_witness:
  "inflight (serveUDP example_env UDPConn None None [Recv None example_datagram 100]) 0
     = Some example_args
   \<and> maxUDPSize < 600
   \<and> writes (fst (handler example_env example_args (600, example_info, None, replicate 600 2) None 130)) = []
   \<and> (0::int) \<le> 40 \<and> 40 \<le> maxUDPSize
   \<and> writes (fst (handler example_env example_args (40, example_info, None, replicate 40 2) None 130)) =
        [(replicate 40 2, [4, 192, 0, 2, 1], example_peer)]"
proof -
  have h: "inflight (serveUDP example_env UDPConn None None [Recv None example_datagram 100]) 0
     = Some example_args"
    by (rule example_spawned)
  have big: "maxUDPSize < 600" and small: "(0::int) \<le> 40 \<and> 40 \<le> maxUDPSize"
    by (simp_all add: maxUDPSize_def)
  have out: "take (nat 40) (overwrite (h_buf example_args) (replicate 40 2)) = replicate 40 2"
    by (simp add: example_args_def overwrite_def bpool_New_def maxUDPSize_def)
  have oob: "oobWithSrc example_env (h_lip example_args) = [4, 192, 0, 2, 1]"
    by (simp add: oobWithSrc_def example_env_def example_args_def To4_def)
  have peer: "h_raddr example_args = example_peer"
    by (simp add: example_args_def)
  from handler_write_policy[OF h, of 600 example_info "replicate 600 2" None 130] big
  have w0: "writes (fst (handler example_env example_args (600, example_info, None, replicate 600 2) None 130)) = []"
    by blast
  from handler_write_policy[OF h, of 40 example_info "replicate 40 2" None 130] small
  have w1: "writes (fst (handler example_env example_args (40, example_info, None, replicate 40 2) None 130)) =
      [(take (nat 40) (overwrite (h_buf example_args) (replicate 40 2)),
        oobWithSrc example_env (h_lip example_args), h_raddr example_args)]"
    by blast
  show ?thesis using h big small w0 w1 out oob peer by simp
qed

text \<open>
  Claim C8 says that after a resolver error the completion log entry has
  \<^verbatim>\<open>ResponseSize = 0\<close>. The handler logs the size the resolver returned with its error,
  whatever it is: a resolver that returns \<open>-1\<close> with its error (as \<^verbatim>\<open>readUDP\<close> of this
  file does) has \<open>-1\<close> logged.
\<close>

theorem resolver_error_size_logged:
  "inflight (serveUDP example_env UDPConn None None [Recv None example_datagram 100]) 0
     = Some example_args
   \<and> map ResponseSize (log_entries (fst (handler example_env example_args
        (- 1, \<lparr>Transport = ''''\<rparr>, Some (PlainError ''upstream timeout''), []) None 130))) = [- 1]
   \<and> map ResponseSize (log_entries (fst (handler example_env example_args
        (- 1, \<lparr>Transport = ''''\<rparr>, Some (PlainError ''upstream timeout''), []) None 130))) \<noteq> [0]"
  using example_spawned handler_resolver_error(1)[of example_args example_env "- 1"]
  by (simp add: received_def example_args_def bpool_New_def maxUDPSize_def)

text \<open>
  Claim C8, amended. When the resolver returns an error in a spawned handler, nothing
  is written to the socket, and the single completion log entry records the resolver's
  error and, as \<^verbatim>\<open>ResponseSize\<close>, the size the resolver returned with it (0 when the
  resolver returned 0).
\<close>

theorem resolver_error_logged:
  assumes "inflight (serveUDP e l err6 err4 acts) k = Some a"
  shows "writes (fst (handler e a (rsize, ri, Some x, data) wr now)) = []
       \<and> map ResponseSize (log_entries (fst (handler e a (rsize, ri, Some x, data) wr now))) = [rsize]
       \<and> map Error (log_entries (fst (handler e a (rsize, ri, Some x, data) wr now))) = [Some x]"
  using handler_writes(3)[OF spawned_received[OF assms]]
    handler_resolver_error[OF spawned_received(1)[OF assms]] by simp

theorem resolver_error_logged_witness:
  "inflight (serveUDP example_env UDPConn None None [Recv None example_datagram 100]) 0
     = Some example_args
   \<and> writes (fst (handler example_env example_args
        (0, \<lparr>Transport = ''''\<rparr>, Some (PlainError ''upstream timeout''), []) None 130)) = []
   \<and> map ResponseSize (log_entries (fst (handler example_env example_args
        (0, \<lparr>Transport = ''''\<rparr>, Some (PlainError ''upstream timeout''), []) None 130))) = [0]
   \<and> map Error (log_entries (fst (handler example_env example_args
        (0, \<lparr>Transport = ''''\<rparr>, Some (PlainError ''upstream timeout''), []) None 130)))
        = [Some (PlainError ''upstream timeout'')]"
  using resolver_error_logged[OF example_spawned, of 0 "\<lparr>Transport = ''''\<rparr>"
      "PlainError ''upstream timeout''" "[]" None 130] example_spawned
  by simp

text \<open>
  Claim C10. When \<^verbatim>\<open>resolver.NewQuery\<close> returns an error together with the query \<open>q\<close>,
  the handler does exactly what it does when \<^verbatim>\<open>NewQuery\<close> returns \<open>q\<close> without an error,
  after one more event in front: the \<^verbatim>\<open>logErr\<close> of the construction error. In
  particular the resolver is called with \<open>q\<close>, and a successful resolution of 0 to 512
  bytes is written to the peer. The completion log entry is built from \<open>q\<close> as
  \<^verbatim>\<open>NewQuery\<close> left it.
\<close>

theorem construction_error_not_abort:
  assumes "inflight (serveUDP e l err6 err4 acts) k = Some a"
    and "NewQuery e (take (nat (h_qsize a)) (h_buf a)) (addrIP e (h_raddr a)) = (q, Some x)"
  shows "handler e a rr wr now =
           (case handler (e\<lparr>NewQuery := \<lambda>payload ip. (q, None)\<rparr>) a rr wr now of
              (evs, buf, ex) \<Rightarrow> (LogErr x # evs, buf, ex))
       \<and> ResolveCall (if 0 < Timeout e then WithTimeout (Timeout e) else Background) q (h_buf a)
           \<in> set (fst (handler e a rr wr now))
       \<and> (0 \<le> rsize \<and> rsize \<le> maxUDPSize \<longrightarrow>
            writes (fst (handler e a (rsize, ri, None, data) wr now)) =
              [(take (nat rsize) (overwrite (h_buf a) data), oobWithSrc e (h_lip a), h_raddr a)])"
proof (intro conjI impI)
  note r = spawned_received[OF assms(1)]
  show "handler e a rr wr now =
           (case handler (e\<lparr>NewQuery := \<lambda>payload ip. (q, None)\<rparr>) a rr wr now of
              (evs, buf, ex) \<Rightarrow> (LogErr x # evs, buf, ex))"
    by (rule handler_construction_error(1)[OF r(1) assms(2)])
  show "ResolveCall (if 0 < Timeout e then WithTimeout (Timeout e) else Background) q (h_buf a)
           \<in> set (fst (handler e a rr wr now))"
    by (rule handler_construction_error(2)[OF r(1) assms(2)])
  assume "0 \<le> rsize \<and> rsize \<le> maxUDPSize"
  then show "writes (fst (handler e a (rsize, ri, None, data) wr now)) =
              [(take (nat rsize) (overwrite (h_buf a) data), oobWithSrc e (h_lip a), h_raddr a)]"
    using handler_writes(2)[OF r] by blast
qed

theorem construction_error_not_abort_witness:
  "inflight (serveUDP failing_env UDPConn None None [Recv None example_datagram 100]) 0
     = Some example_args
   \<and> NewQuery failing_env (take (nat (h_qsize example_args)) (h_buf example_args))
        (addrIP failing_env (h_raddr example_args))
       = (\<lparr>q_PeerIP = Some [192, 0, 2, 7], q_Type = 0, q_Name = ''''\<rparr>,
          Some (PlainError ''short buffer''))
   \<and> fst (handler failing_env example_args (40, example_info, None, replicate 40 2) None 130)
       = LogErr (PlainError ''short buffer'') #
         fst (handler
           (failing_env\<lparr>NewQuery := \<lambda>payload ip.
              (\<lparr>q_PeerIP = Some [192, 0, 2, 7], q_Type = 0, q_Name = ''''\<rparr>, None)\<rparr>)
           example_args (40, example_info, None, replicate 40 2) None 130)
   \<and> ResolveCall (WithTimeout 5) \<lparr>q_PeerIP = Some [192, 0, 2, 7], q_Type = 0, q_Name = ''''\<rparr>
        (h_buf example_args)
       \<in> set (fst (handler failing_env example_args (40, example_info, None, replicate 40 2) None 130))
   \<and> (0::int) \<le> 40 \<and> 40 \<le> maxUDPSize
   \<and> writes (fst (handler failing_env example_args (40, example_info, None, replicate 40 2) None 130))
       = [(replicate 40 2, [4, 192, 0, 2, 1], example_peer)]"
proof -
  let ?q = "\<lparr>q_PeerIP = Some [192, 0, 2, 7], q_Type = 0, q_Name = ''''\<rparr>"
  have nq: "NewQuery failing_env (take (nat (h_qsize example_args)) (h_buf example_args))
        (addrIP failing_env (h_raddr example_args)) = (?q, Some (PlainError ''short buffer''))"
    by (simp add: failing_env_def example_env_def example_args_def example_peer_def)
  have small: "(0::int) \<le> 40 \<and> 40 \<le> maxUDPSize" by (simp add: maxUDPSize_def)
  have tm: "Timeout failing_env = 5" by (simp add: failing_env_def example_env_def)
  have out: "take (nat 40) (overwrite (h_buf example_args) (replicate 40 2)) = replicate 40 2"
    by (simp add: example_args_def overwrite_def bpool_New_def maxUDPSize_def)
  have oob: "oobWithSrc failing_env (h_lip example_args) = [4, 192, 0, 2, 1]"
    by (simp add: oobWithSrc_def failing_env_def example_env_def example_args_def To4_def)
  have peer: "h_raddr example_args = example_peer" by (simp add: example_args_def)
  note T = construction_error_not_abort[OF failing_spawned nq,
      of "(40, example_info, None, replicate 40 2)" None 130 40 example_info "replicate 40 2"]
  from T[THEN conjunct1]
  have e1: "fst (handler failing_env example_args (40, example_info, None, replicate 40 2) None 130)
       = LogErr (PlainError ''short buffer'') #
         fst (handler (failing_env\<lparr>NewQuery := \<lambda>payload ip. (?q, None)\<rparr>)
           example_args (40, example_info, None, replicate 40 2) None 130)"
    by (simp add: case_prod_beta)
  from T[THEN conjunct2, THEN conjunct1] tm
  have e2: "ResolveCall (WithTimeout 5) ?q (h_buf example_args)
       \<in> set (fst (handler failing_env example_args (40, example_info, None, replicate 40 2) None 130))"
    by simp
  from T[THEN conjunct2, THEN conjunct2] small out oob peer
  have e3: "writes (fst (handler failing_env example_args (40, example_info, None, replicate 40 2) None 130))
       = [(replicate 40 2, [4, 192, 0, 2, 1], example_peer)]"
    by simp
  from failing_spawned nq e1 e2 small e3 show ?thesis by blast
qed

section \<open>The dispatch loop\<close>

text \<open>
  Claim C3. While \<^verbatim>\<open>serveUDP\<close> is running, a pass of the loop that receives a datagram
  of at most 14 bytes takes a buffer, puts it back, and changes nothing else: the trace
  gains the \<^verbatim>\<open>Get\<close> and the \<^verbatim>\<open>Put\<close> and no log entry, no goroutine is added to
  those in flight, and \<^verbatim>\<open>serveUDP\<close> has not returned, so the next action of the loop is
  another receive.
\<close>

theorem short_datagram_skipped:
  assumes "stopped s = None" and "\<not> crashed s" and "length data \<le> 14"
  shows "step e (Recv pick (Arrive data ctl raddr) now) s =
           s\<lparr>pool := bpool_Put (overwrite (fst (bpool_Get pick (pool s))) data)
                       (snd (bpool_Get pick (pool s))),
             trace := trace s @ [(acquired s, PoolGet), (acquired s, PoolPut)],
             acquired := Suc (acquired s)\<rparr>"
proof -
  obtain buf0 pool' where g: "bpool_Get pick (pool s) = (buf0, pool')"
    by (cases "bpool_Get pick (pool s)")
  have small: "int (min (length data) (length buf0)) \<le> 14"
    using assms(3) by simp
  show ?thesis
    using assms(1,2) small loop_pass_cases[OF g readUDP_Arrive, of e data ctl raddr now] g
    by (simp add: pass_put_def)
qed

theorem short_datagram_skipped_witness:
  "stopped (start UDPConn None None) = None \<and> \<not> crashed (start UDPConn None None)
   \<and> length (replicate 14 (1::byte)) \<le> 14
   \<and> trace (step example_env (Recv None (Arrive (replicate 14 1) [] example_peer) 100)
        (start UDPConn None None)) = [(0, PoolGet), (0, PoolPut)]
   \<and> inflight (step example_env (Recv None (Arrive (replicate 14 1) [] example_peer) 100)
        (start UDPConn None None)) 0 = None
   \<and> stopped (step example_env (Recv None (Arrive (replicate 14 1) [] example_peer) 100)
        (start UDPConn None None)) = None"
proof -
  have h1: "stopped (start UDPConn None None) = None"
    and h2: "\<not> crashed (start UDPConn None None)"
    by (simp_all add: start_def setUDPDstOptions_def)
  have h3: "length (replicate 14 (1::byte)) \<le> 14" by simp
  have s0: "trace (start UDPConn None None) = []" "acquired (start UDPConn None None) = 0"
    "inflight (start UDPConn None None) 0 = None"
    by (simp_all add: start_def setUDPDstOptions_def)
  show ?thesis
    using short_datagram_skipped[OF h1 h2 h3, of example_env None "[]" example_peer 100] h1 h2 s0
    by simp
qed

text \<open>
  Claim C2 says that the buffer is put back also when a non-transient receive error ends
  the loop. The code returns the error at once: the buffer of that pass was taken from
  the pool and is never put back.
\<close>

theorem fatal_receive_drops_buffer:
  "gets_of 0 (trace (serveUDP example_env UDPConn None None
       [Recv None (Fail (PlainError ''use of closed network connection'')) 100])) = 1
   \<and> puts_of 0 (trace (serveUDP example_env UDPConn None None
       [Recv None (Fail (PlainError ''use of closed network connection'')) 100])) = 0"
  by (simp add: serveUDP_def run_def start_def setUDPDstOptions_def loop_pass_def bpool_Get_def
      readUDP_Fail Let_def)

text \<open>
  Claim C2, amended. In every state of every run (every interleaving of loop passes and
  goroutine ends), every buffer taken from the pool was taken once, and it has been put
  back exactly once if its pass ended with a transient receive error or a short
  datagram, or if its goroutine has ended (on any of its exit paths); it has not been
  put back while its goroutine is in flight, and the buffer the loop held when a
  non-transient receive error ended it is not put back at all. No buffer is put back
  twice.
\<close>

theorem buffers_accounted:
  "gets_of i (trace (serveUDP e l err6 err4 acts)) =
     (if i < acquired (serveUDP e l err6 err4 acts) then 1 else 0)
   \<and> puts_of i (trace (serveUDP e l err6 err4 acts)) =
     (if i < acquired (serveUDP e l err6 err4 acts)
         \<and> inflight (serveUDP e l err6 err4 acts) i = None
         \<and> \<not> dropped (serveUDP e l err6 err4 acts) i
      then 1 else 0)"
  using accounted_gets[OF accounted_serveUDP] accounted_puts[OF accounted_serveUDP] by blast

theorem buffers_accounted_witness:
  "puts_of 0 (trace (serveUDP example_env UDPConn None None example_run)) = 1
   \<and> puts_of 1 (trace (serveUDP example_env UDPConn None None example_run)) = 1
   \<and> puts_of 2 (trace (serveUDP example_env UDPConn None None example_run)) = 1
   \<and> gets_of 3 (trace (serveUDP example_env UDPConn None None example_run)) = 1
   \<and> puts_of 3 (trace (serveUDP example_env UDPConn None None example_run)) = 0"
  using buffers_accounted[of 0 example_env UDPConn None None example_run]
    buffers_accounted[of 1 example_env UDPConn None None example_run]
    buffers_accounted[of 2 example_env UDPConn None None example_run]
    buffers_accounted[of 3 example_env UDPConn None None example_run]
  by (simp add: example_run_state dropped_def)

text \<open>
  Claim C9 says that a non-transient receive error is the only condition under which
  \<^verbatim>\<open>serveUDP\<close> returns an error. Given a listener that is not a UDP socket,
  \<^verbatim>\<open>serveUDP\<close> returns an error before any receive.
\<close>

theorem not_a_udp_socket_stops:
  "stopped (serveUDP example_env OtherConn None None []) = Some (PlainError ''not a UDP socket'')
   \<and> trace (serveUDP example_env OtherConn None None []) = []"
  by (simp add: serveUDP_def run_def start_def)

text \<open>
  Claim C9, amended. \<^verbatim>\<open>serveUDP\<close> returns an error only when the listener is not a UDP
  socket, when \<^verbatim>\<open>setUDPDstOptions\<close> fails (both families fail; the IPv4 error is
  returned, wrapped), or when a receive fails with an error that is not a temporary
  \<^verbatim>\<open>net.Error\<close>, and then it returns that error. A temporary receive error puts the
  buffer back and leaves the loop running; a non-temporary one makes \<^verbatim>\<open>serveUDP\<close>
  return it.
\<close>

theorem serveUDP_return_causes:
  "(stopped (serveUDP e l err6 err4 acts) = Some x \<longrightarrow>
      (l = OtherConn \<and> x = PlainError ''not a UDP socket'') \<or>
      (l = UDPConn \<and> err6 \<noteq> None \<and> (\<exists>y. err4 = Some y \<and> x = Wrapped ''setUDPDstOptions: '' y)) \<or>
      (l = UDPConn \<and> (err6 = None \<or> err4 = None) \<and> \<not> temporary x
         \<and> (\<exists>pick now. Recv pick (Fail x) now \<in> set acts)))
   \<and> (stopped s = None \<and> \<not> crashed s \<and> temporary y \<longrightarrow>
        step e (Recv pick (Fail y) now) s =
          s\<lparr>pool := bpool_Put (fst (bpool_Get pick (pool s))) (snd (bpool_Get pick (pool s))),
            trace := trace s @ [(acquired s, PoolGet), (acquired s, PoolPut)],
            acquired := Suc (acquired s)\<rparr>)
   \<and> (stopped s = None \<and> \<not> crashed s \<and> \<not> temporary y \<longrightarrow>
        stopped (step e (Recv pick (Fail y) now) s) = Some y)"
proof (intro conjI impI)
  assume "stopped (serveUDP e l err6 err4 acts) = Some x"
  then have "stopped (run e acts (start l err6 err4)) = Some x" by (simp add: serveUDP_def)
  from stopped_run[OF this]
  show "(l = OtherConn \<and> x = PlainError ''not a UDP socket'') \<or>
      (l = UDPConn \<and> err6 \<noteq> None \<and> (\<exists>y. err4 = Some y \<and> x = Wrapped ''setUDPDstOptions: '' y)) \<or>
      (l = UDPConn \<and> (err6 = None \<or> err4 = None) \<and> \<not> temporary x
         \<and> (\<exists>pick now. Recv pick (Fail x) now \<in> set acts))"
    using stopped_start[of l err6 err4 x] stopped_start_None[of l err6 err4] by blast
next
  assume "stopped s = None \<and> \<not> crashed s \<and> temporary y"
  then show "step e (Recv pick (Fail y) now) s =
          s\<lparr>pool := bpool_Put (fst (bpool_Get pick (pool s))) (snd (bpool_Get pick (pool s))),
            trace := trace s @ [(acquired s, PoolGet), (acquired s, PoolPut)],
            acquired := Suc (acquired s)\<rparr>"
    by (simp add: loop_pass_Fail pass_put_def)
next
  assume "stopped s = None \<and> \<not> crashed s \<and> \<not> temporary y"
  then show "stopped (step e (Recv pick (Fail y) now) s) = Some y"
    by (simp add: loop_pass_Fail pass_stop_def)
qed

theorem serveUDP_return_causes_witness:
  "stopped (serveUDP example_env UDPConn None None
      [Recv None (Fail (NetError ''i/o timeout'' True)) 100,
       Recv None (Fail (PlainError ''use of closed network connection'')) 101])
     = Some (PlainError ''use of closed network connection'')
   \<and> \<not> temporary (PlainError ''use of closed network connection'')
   \<and> stopped (start UDPConn None None) = None \<and> \<not> crashed (start UDPConn None None)
   \<and> temporary (NetError ''i/o timeout'' True)
   \<and> trace (step example_env (Recv None (Fail (NetError ''i/o timeout'' True)) 100)
        (start UDPConn None None)) = [(0, PoolGet), (0, PoolPut)]
   \<and> stopped (step example_env (Recv None (Fail (NetError ''i/o timeout'' True)) 100)
        (start UDPConn None None)) = None
   \<and> stopped (step example_env (Recv None (Fail (PlainError ''use of closed network connection'')) 100)
        (start UDPConn None None)) = Some (PlainError ''use of closed network connection'')"
proof -
  let ?E = "PlainError ''use of closed network connection''"
  let ?T = "NetError ''i/o timeout'' True"
  let ?s = "start UDPConn None None"
  have r: "stopped (serveUDP example_env UDPConn None None [Recv None (Fail ?T) 100, Recv None (Fail ?E) 101])
     = Some ?E"
    by (simp add: serveUDP_def run_def start_def setUDPDstOptions_def loop_pass_Fail pass_put_def
        pass_stop_def)
  have h: "stopped ?s = None" "\<not> crashed ?s" "trace ?s = []" "acquired ?s = 0"
    by (simp_all add: start_def setUDPDstOptions_def)
  have t: "temporary ?T" "\<not> temporary ?E" by simp_all
  from serveUDP_return_causes[of example_env UDPConn None None "[]" ?E ?s ?T None 100] h t
  have a: "trace (step example_env (Recv None (Fail ?T) 100) ?s) = [(0, PoolGet), (0, PoolPut)]"
    and b: "stopped (step example_env (Recv None (Fail ?T) 100) ?s) = None"
    by simp_all
  from serveUDP_return_causes[of example_env UDPConn None None "[]" ?E ?s ?E None 100] h t
  have c: "stopped (step example_env (Recv None (Fail ?E) 100) ?s) = Some ?E"
    by simp
  show ?thesis using r h t a b c by simp
qed

section \<open>The ancillary data codec\<close>

text \<open>
  Claim C5. \<^verbatim>\<open>parseDstFromOOB\<close> returns the destination of the IPv6 decoding when that
  decoding succeeds and yields one; otherwise the destination of the IPv4 decoding when
  that succeeds and yields one; otherwise \<^verbatim>\<open>nil\<close>. So on input that both decoders
  reject, and on input from which neither yields a destination, the result is \<^verbatim>\<open>nil\<close>.
  The function returns an address and nothing else: it has no error result.
\<close>

theorem parseDstFromOOB_order:
  "(fst (Parse6 e oob) = None \<and> snd (Parse6 e oob) = Some d \<longrightarrow> parseDstFromOOB e oob = Some d)
   \<and> (\<not> (fst (Parse6 e oob) = None \<and> snd (Parse6 e oob) \<noteq> None)
        \<and> fst (Parse4 e oob) = None \<and> snd (Parse4 e oob) = Some d
      \<longrightarrow> parseDstFromOOB e oob = Some d)
   \<and> (\<not> (fst (Parse6 e oob) = None \<and> snd (Parse6 e oob) \<noteq> None)
        \<and> \<not> (fst (Parse4 e oob) = None \<and> snd (Parse4 e oob) \<noteq> None)
      \<longrightarrow> parseDstFromOOB e oob = None)
   \<and> (fst (Parse6 e oob) \<noteq> None \<and> fst (Parse4 e oob) \<noteq> None \<longrightarrow> parseDstFromOOB e oob = None)
   \<and> (snd (Parse6 e oob) = None \<and> snd (Parse4 e oob) = None \<longrightarrow> parseDstFromOOB e oob = None)"
  by (simp add: parseDstFromOOB_def)

theorem parseDstFromOOB_order_witness:
  "parseDstFromOOB example_env (6 # example_ip6) = Some example_ip6
   \<and> parseDstFromOOB example_env [4, 192, 0, 2, 1] = Some [192, 0, 2, 1]
   \<and> parseDstFromOOB example_env [] = None
   \<and> parseDstFromOOB example_env [9, 9] = None"
  using parseDstFromOOB_order[of example_env "6 # example_ip6" example_ip6]
    parseDstFromOOB_order[of example_env "[4, 192, 0, 2, 1]" "[192, 0, 2, 1]"]
    parseDstFromOOB_order[of example_env "[]"]
    parseDstFromOOB_order[of example_env "[9, 9]"]
  by (simp add: example_Parse6 example_Parse4)

text \<open>
  Claim C6. \<^verbatim>\<open>oobWithSrc\<close> marshals an IPv6 control message when \<^verbatim>\<open>ip.To4()\<close> is
  \<^verbatim>\<open>nil\<close>, and an IPv4 control message otherwise.
\<close>

theorem oobWithSrc_family:
  "(To4 ip = None \<longrightarrow> oobWithSrc e ip = Marshal6 e ip)
   \<and> (To4 ip \<noteq> None \<longrightarrow> oobWithSrc e ip = Marshal4 e ip)"
  by (simp add: oobWithSrc_def)

theorem oobWithSrc_family_witness:
  "To4 (Some example_ip6) = None
   \<and> oobWithSrc example_env (Some example_ip6) = 6 # example_ip6
   \<and> To4 (Some [192, 0, 2, 1]) \<noteq> None
   \<and> oobWithSrc example_env (Some [192, 0, 2, 1]) = [4, 192, 0, 2, 1]
   \<and> To4 (Some [0, 0, 0, 0, 0, 0, 0, 0, 0, 0, 0xff, 0xff, 192, 0, 2, 1]) \<noteq> None
   \<and> oobWithSrc example_env (Some [0, 0, 0, 0, 0, 0, 0, 0, 0, 0, 0xff, 0xff, 192, 0, 2, 1])
        = [4, 192, 0, 2, 1]"
proof -
  have m6: "Marshal6 example_env (Some example_ip6) = 6 # example_ip6"
    by (simp add: example_env_def)
  have m4: "Marshal4 example_env (Some [192, 0, 2, 1]) = [4, 192, 0, 2, 1]"
    "Marshal4 example_env (Some [0, 0, 0, 0, 0, 0, 0, 0, 0, 0, 0xff, 0xff, 192, 0, 2, 1])
       = [4, 192, 0, 2, 1]"
    by (simp_all add: example_env_def example_To4)
  show ?thesis
    using oobWithSrc_family[of "Some example_ip6" example_env]
      oobWithSrc_family[of "Some [192, 0, 2, 1]" example_env]
      oobWithSrc_family[of "Some [0, 0, 0, 0, 0, 0, 0, 0, 0, 0, 0xff, 0xff, 192, 0, 2, 1]" example_env]
    by (simp add: example_To4 m6 m4)
qed

end
